theory Spec2Isabelle
  imports Main
begin

section \<open>Notebook import hook: name resolution\<close>

text \<open>
  The notebook defines \<^verbatim>\<open>find_notebook\<close>, \<^verbatim>\<open>NotebookLoader\<close> and
  \<^verbatim>\<open>NotebookFinder\<close>. Library functions they call are modelled as Python
  documents them, on a POSIX host (\<^verbatim>\<open>os.path.sep\<close> is \<^verbatim>\<open>/\<close>).
\<close>

subsection \<open>Library string and path functions\<close>

text \<open>\<^verbatim>\<open>s.rsplit(sep, 1)\<close> for a one-character separator: at most one split, at the
  last occurrence of the separator.\<close>

definition rsplit1 :: "char \<Rightarrow> string \<Rightarrow> string list" where
  "rsplit1 sep s =
     (if sep \<in> set s
      then [rev (tl (dropWhile (\<lambda>c. c \<noteq> sep) (rev s))), rev (takeWhile (\<lambda>c. c \<noteq> sep) (rev s))]
      else [s])"

text \<open>\<^verbatim>\<open>s.replace(old, new)\<close> for one-character \<^verbatim>\<open>old\<close> and \<^verbatim>\<open>new\<close>.\<close>

definition str_replace :: "char \<Rightarrow> char \<Rightarrow> string \<Rightarrow> string" where
  "str_replace old new s = map (\<lambda>c. if c = old then new else c) s"

text \<open>\<^verbatim>\<open>os.path.join(a, b)\<close> of posixpath: an absolute second component wins, an
  empty first component or one that ends with the separator takes no extra separator.\<close>

definition path_join :: "string \<Rightarrow> string \<Rightarrow> string" where
  "path_join a b =
     (if b \<noteq> [] \<and> hd b = CHR ''/'' then b
      else if a = [] \<or> last a = CHR ''/'' then a @ b
      else a @ ''/'' @ b)"

text \<open>\<^verbatim>\<open>os.path.sep.join(path)\<close>.\<close>

fun sep_join :: "string list \<Rightarrow> string" where
  "sep_join [] = []"
| "sep_join [d] = d"
| "sep_join (d # ds) = d @ ''/'' @ sep_join ds"

subsection \<open>find_notebook\<close>

text \<open>\<^verbatim>\<open>name = fullname.rsplit('.', 1)[-1]\<close>\<close>

definition module_base :: "string \<Rightarrow> string" where
  "module_base fullname = last (rsplit1 CHR ''.'' fullname)"

text \<open>\<^verbatim>\<open>if not path: path = ['']\<close>: an absent path and an empty list are both falsy.\<close>

definition search_dirs :: "string list option \<Rightarrow> string list" where
  "search_dirs path = (case path of None \<Rightarrow> [''''] | Some [] \<Rightarrow> [''''] | Some ds \<Rightarrow> ds)"

text \<open>The \<^verbatim>\<open>for d in path\<close> loop, with its two early returns; falling off the end of
  the loop returns \<^verbatim>\<open>None\<close>. The file system enters through \<^verbatim>\<open>os.path.isfile\<close> only.\<close>

fun find_loop :: "(string \<Rightarrow> bool) \<Rightarrow> string \<Rightarrow> string list \<Rightarrow> string option" where
  "find_loop isfile name [] = None"
| "find_loop isfile name (d # ds) =
     (let nb_path = path_join d (name @ ''.ipynb'') in
      if isfile nb_path then Some nb_path
      else
        let nb_path = str_replace CHR ''_'' CHR '' '' nb_path in
        if isfile nb_path then Some nb_path
        else find_loop isfile name ds)"

definition find_notebook :: "(string \<Rightarrow> bool) \<Rightarrow> string \<Rightarrow> string list option \<Rightarrow> string option" where
  "find_notebook isfile fullname path =
     (let name = module_base fullname;
          path = search_dirs path
      in find_loop isfile name path)"


text \<open>The two paths the loop tests for one directory, in the order it tests them.\<close>

definition tested_paths :: "string \<Rightarrow> string \<Rightarrow> string list" where
  "tested_paths name d =
     [path_join d (name @ ''.ipynb''),
      str_replace CHR ''_'' CHR '' '' (path_join d (name @ ''.ipynb''))]"

text \<open>The search as the specification words it: in each directory of the list, in list
  order, first the file \<^verbatim>\<open><base>.ipynb\<close> and then the file of that directory whose
  base name has blanks for the underscores; the first of these paths that is a file is
  the result, and there is none when no directory has either.\<close>

definition spec_candidates :: "string \<Rightarrow> string \<Rightarrow> string list" where
  "spec_candidates name d =
     [path_join d (name @ ''.ipynb''),
      path_join d (str_replace CHR ''_'' CHR '' '' name @ ''.ipynb'')]"

definition spec_find_notebook ::
  "(string \<Rightarrow> bool) \<Rightarrow> string \<Rightarrow> string list option \<Rightarrow> string option" where
  "spec_find_notebook isfile fullname path =
     List.find isfile (concat (map (spec_candidates (module_base fullname)) (search_dirs path)))"

section \<open>Notebook import hook: loader and finder\<close>

subsection \<open>Values, namespaces, files, the interpreter state\<close>

text \<open>Python values as far as the hook handles them. \<open>PyRef\<close> is a reference to an
  object by its identity; \<open>PyFunc\<close> a function by its name; \<open>PyBuiltins\<close> the
  builtins that \<^verbatim>\<open>exec\<close> makes available.\<close>

datatype pyval = PyNone | PyInt int | PyStr string | PyRef nat | PyFunc string | PyBuiltins

type_synonym namespace = "string \<rightharpoonup> pyval"

text \<open>Exceptions. \<open>Unsupported\<close> is not a Python exception: it marks code outside
  the fragment of Python that \<open>py_exec\<close> below interprets.\<close>

datatype exn = TypeError | NameError | FileNotFoundError | NotJSONError | Unsupported

text \<open>A cell of a notebook document: the two fields the loader reads.\<close>

record cell =
  cell_type :: string
  source :: string

text \<open>A file is represented by what \<^verbatim>\<open>nbformat.read(f, 4)\<close> makes of its text: a
  notebook with its cells, or a failure to parse.\<close>

datatype nbfile = Notebook "cell list" | Malformed

text \<open>The process state the hook reads and writes: the files, the allocator of object
  identities (an identity below \<open>next_id\<close> is taken), the dictionaries of the module
  objects by identity (a module is identified with its \<^verbatim>\<open>__dict__\<close>),
  \<^verbatim>\<open>sys.modules\<close>, and the dictionary that \<^verbatim>\<open>shell.user_ns\<close> refers to.\<close>

record world =
  files :: "string \<rightharpoonup> nbfile"
  next_id :: nat
  heap :: "nat \<rightharpoonup> namespace"
  sys_modules :: "string \<rightharpoonup> nat"
  user_ns :: nat

definition os_path_isfile :: "world \<Rightarrow> string \<Rightarrow> bool" where
  "os_path_isfile w p = (files w p \<noteq> None)"

text \<open>\<^verbatim>\<open>getattr(mod, name)\<close> for the module with identity \<open>m\<close>.\<close>

definition module_attr :: "world \<Rightarrow> nat \<Rightarrow> string \<Rightarrow> pyval option" where
  "module_attr w m name = (case heap w m of None \<Rightarrow> None | Some ns \<Rightarrow> ns name)"

subsection \<open>NotebookLoader\<close>

text \<open>A loader object: its identity and its \<^verbatim>\<open>path\<close> attribute (the shell is the
  process-wide singleton, part of \<open>world\<close>).\<close>

record loader =
  loader_id :: nat
  loader_path :: "string list option"

text \<open>\<^verbatim>\<open>NotebookLoader(path)\<close>: a new object.\<close>

definition NotebookLoader :: "string list option \<Rightarrow> world \<Rightarrow> loader \<times> world" where
  "NotebookLoader path w =
     (\<lparr>loader_id = next_id w, loader_path = path\<rparr>, w\<lparr>next_id := Suc (next_id w)\<rparr>)"

text \<open>The dictionary of \<^verbatim>\<open>types.ModuleType(fullname)\<close> in Python 3.\<close>

definition ModuleType :: "string \<Rightarrow> namespace" where
  "ModuleType name =
     [''__name__'' \<mapsto> PyStr name, ''__doc__'' \<mapsto> PyNone, ''__package__'' \<mapsto> PyNone,
      ''__loader__'' \<mapsto> PyNone, ''__spec__'' \<mapsto> PyNone]"

text \<open>The module's dictionary after the three assignments that follow its creation:
  \<^verbatim>\<open>mod.__file__ = path\<close>, \<^verbatim>\<open>mod.__loader__ = self\<close>,
  \<^verbatim>\<open>mod.__dict__['get_ipython'] = get_ipython\<close>.\<close>

definition module_dict :: "loader \<Rightarrow> string \<Rightarrow> string \<Rightarrow> namespace" where
  "module_dict self fullname p =
     (ModuleType fullname)
       (''__file__'' \<mapsto> PyStr p, ''__loader__'' \<mapsto> PyRef (loader_id self),
        ''get_ipython'' \<mapsto> PyFunc ''get_ipython'')"

text \<open>The loop over \<^verbatim>\<open>nb.cells\<close>, for the module object \<open>md\<close>. \<open>transform_cell\<close> is
  the shell's input transformer and \<open>exec\<close> Python's \<^verbatim>\<open>exec(code, mod.__dict__)\<close>,
  both parameters. A fragment is arbitrary code: \<open>exec\<close> is given the code, the module
  whose dictionary is its globals, and the process state, and answers with the state the
  code has left and the exception it has raised, if any. What a fragment did before it
  raised stays done.\<close>

fun exec_cells ::
  "(string \<Rightarrow> exn + string) \<Rightarrow> (string \<Rightarrow> nat \<Rightarrow> world \<Rightarrow> exn option \<times> world) \<Rightarrow>
   cell list \<Rightarrow> nat \<Rightarrow> world \<Rightarrow> exn option \<times> world" where
  "exec_cells transform_cell exec [] md w = (None, w)"
| "exec_cells transform_cell exec (c # cs) md w =
     (if cell_type c = ''code'' then
        (case transform_cell (source c) of
           Inl e \<Rightarrow> (Some e, w)
         | Inr code \<Rightarrow>
             (case exec code md w of
                (Some e, w') \<Rightarrow> (Some e, w')
              | (None, w') \<Rightarrow> exec_cells transform_cell exec cs md w'))
      else exec_cells transform_cell exec cs md w)"

text \<open>\<^verbatim>\<open>load_module\<close>, statement by statement. \<^verbatim>\<open>io.open(None)\<close> raises TypeError;
  the \<^verbatim>\<open>print\<close> is not modelled. The result is the exception raised or the identity of
  the module returned, and the state left behind.\<close>

definition load_module ::
  "(string \<Rightarrow> exn + string) \<Rightarrow> (string \<Rightarrow> nat \<Rightarrow> world \<Rightarrow> exn option \<times> world) \<Rightarrow>
   loader \<Rightarrow> string \<Rightarrow> world \<Rightarrow> (exn + nat) \<times> world" where
  "load_module transform_cell exec self fullname w =
     (case find_notebook (os_path_isfile w) fullname (loader_path self) of
        None \<Rightarrow> (Inl TypeError, w)
      | Some p \<Rightarrow>
          (case files w p of
             None \<Rightarrow> (Inl FileNotFoundError, w)
           | Some Malformed \<Rightarrow> (Inl NotJSONError, w)
           | Some (Notebook cells) \<Rightarrow>
               let md = next_id w;
                   w = w\<lparr>next_id := Suc md, heap := (heap w)(md \<mapsto> module_dict self fullname p)\<rparr>;
                   w = w\<lparr>sys_modules := (sys_modules w)(fullname \<mapsto> md)\<rparr>;
                   save_user_ns = user_ns w;
                   w = w\<lparr>user_ns := md\<rparr>;
                   (raised, w) = exec_cells transform_cell exec cells md w;
                   w = w\<lparr>user_ns := save_user_ns\<rparr>
               in (case raised of Some e \<Rightarrow> (Inl e, w) | None \<Rightarrow> (Inr md, w))))"

text \<open>The state in which the loop over the cells starts, when the notebook at \<open>p\<close> has
  been read in the state \<open>w\<close>: the module is created and registered, and
  \<^verbatim>\<open>shell.user_ns\<close> refers to its dictionary.\<close>

definition loop_entry :: "loader \<Rightarrow> string \<Rightarrow> string \<Rightarrow> world \<Rightarrow> world" where
  "loop_entry self fullname p w =
     w\<lparr>next_id := Suc (next_id w),
       heap := (heap w)(next_id w \<mapsto> module_dict self fullname p),
       sys_modules := (sys_modules w)(fullname \<mapsto> next_id w),
       user_ns := next_id w\<rparr>"

text \<open>An \<^verbatim>\<open>exec\<close> for code that does nothing but read and bind names of its globals:
  \<open>f\<close> says what the code makes of the dictionary. \<^verbatim>\<open>exec\<close> raises TypeError when its
  globals are no dictionary.\<close>

definition on_namespace ::
  "(string \<Rightarrow> namespace \<Rightarrow> exn option \<times> namespace) \<Rightarrow>
   string \<Rightarrow> nat \<Rightarrow> world \<Rightarrow> exn option \<times> world" where
  "on_namespace f code md w =
     (case heap w md of
        None \<Rightarrow> (Some TypeError, w)
      | Some ns \<Rightarrow> (case f code ns of (raised, ns') \<Rightarrow> (raised, w\<lparr>heap := (heap w)(md \<mapsto> ns')\<rparr>)))"

subsection \<open>NotebookFinder\<close>

text \<open>The keys of \<^verbatim>\<open>self.loaders\<close>: \<^verbatim>\<open>key = path\<close>, and for a truthy path
  \<^verbatim>\<open>key = os.path.sep.join(path)\<close>. A list is not hashable.\<close>

datatype key = KNone | KList "string list" | KStr string

definition cache_key :: "string list option \<Rightarrow> key" where
  "cache_key path =
     (case path of None \<Rightarrow> KNone | Some [] \<Rightarrow> KList [] | Some ds \<Rightarrow> KStr (sep_join ds))"

fun hashable :: "key \<Rightarrow> bool" where
  "hashable (KList _) = False"
| "hashable _ = True"

record finder =
  loaders :: "key \<rightharpoonup> loader"

text \<open>\<^verbatim>\<open>NotebookFinder()\<close>\<close>

definition NotebookFinder :: finder where
  "NotebookFinder = \<lparr>loaders = Map.empty\<rparr>"

text \<open>\<^verbatim>\<open>find_module\<close>: \<^verbatim>\<open>if not nb_path: return\<close> declines on \<^verbatim>\<open>None\<close> and on the
  empty string; \<^verbatim>\<open>key not in self.loaders\<close> hashes the key and raises TypeError on
  a list.\<close>

definition find_module ::
  "finder \<Rightarrow> string \<Rightarrow> string list option \<Rightarrow> world \<Rightarrow> (exn + loader option) \<times> finder \<times> world" where
  "find_module self fullname path w =
     (let nb_path = find_notebook (os_path_isfile w) fullname path in
      if nb_path = None \<or> nb_path = Some [] then (Inr None, self, w)
      else
        let key = cache_key path in
        if \<not> hashable key then (Inl TypeError, self, w)
        else
          (case loaders self key of
             None \<Rightarrow>
               let (l, w) = NotebookLoader path w
               in (Inr (Some l), self\<lparr>loaders := (loaders self)(key \<mapsto> l)\<rparr>, w)
           | Some l \<Rightarrow> (Inr (Some l), self, w)))"

subsection \<open>A fragment of Python for concrete documents\<close>

text \<open>
  \<open>load_module\<close> takes \<^verbatim>\<open>exec\<close> as a parameter. Concrete documents are run with
  \<open>on_namespace py_exec\<close>, where \<open>py_exec\<close> interprets one form of statement, \<^verbatim>\<open>v = a + b + ...\<close> with tokens
  separated by blanks, where \<^verbatim>\<open>v\<close> is a one-letter lower-case name and each operand is
  such a name or a decimal literal without leading zero. No keyword and no builtin of
  Python is a one-letter name, so an unbound name raises NameError. Any other code is
  answered with \<open>Unsupported\<close>.
\<close>

datatype expr = Num int | Name string | Add expr expr

fun tokens :: "string \<Rightarrow> string \<Rightarrow> string list" where
  "tokens cur [] = (if cur = [] then [] else [cur])"
| "tokens cur (c # cs) =
     (if c = CHR '' '' then (if cur = [] then tokens [] cs else cur # tokens [] cs)
      else tokens (cur @ [c]) cs)"

definition is_var :: "string \<Rightarrow> bool" where
  "is_var tok = (length tok = 1 \<and> hd tok \<in> set ''abcdefghijklmnopqrstuvwxyz'')"

definition is_literal :: "string \<Rightarrow> bool" where
  "is_literal tok =
     (tok \<noteq> [] \<and> list_all (\<lambda>c. c \<in> set ''0123456789'') tok \<and> (hd tok \<noteq> CHR ''0'' \<or> tok = ''0''))"

definition literal_value :: "string \<Rightarrow> int" where
  "literal_value tok = foldl (\<lambda>n c. 10 * n + (of_char c - 48)) 0 tok"

definition parse_atom :: "string \<Rightarrow> expr option" where
  "parse_atom tok =
     (if is_literal tok then Some (Num (literal_value tok))
      else if is_var tok then Some (Name tok)
      else None)"

fun parse_sum :: "expr \<Rightarrow> string list \<Rightarrow> expr option" where
  "parse_sum e [] = Some e"
| "parse_sum e [t] = None"
| "parse_sum e (t # a # rest) =
     (if t = ''+'' then
        (case parse_atom a of None \<Rightarrow> None | Some e' \<Rightarrow> parse_sum (Add e e') rest)
      else None)"

definition parse_assign :: "string \<Rightarrow> (string \<times> expr) option" where
  "parse_assign code =
     (case tokens [] code of
        v # eq # a # rest \<Rightarrow>
          (if is_var v \<and> eq = ''='' then
             (case parse_atom a of
                None \<Rightarrow> None
              | Some e \<Rightarrow> (case parse_sum e rest of None \<Rightarrow> None | Some e' \<Rightarrow> Some (v, e')))
           else None)
      | _ \<Rightarrow> None)"

fun py_add :: "pyval \<Rightarrow> pyval \<Rightarrow> exn + pyval" where
  "py_add (PyInt i) (PyInt j) = Inr (PyInt (i + j))"
| "py_add (PyStr s) (PyStr t) = Inr (PyStr (s @ t))"
| "py_add _ _ = Inl TypeError"

fun eval :: "namespace \<Rightarrow> expr \<Rightarrow> exn + pyval" where
  "eval ns (Num n) = Inr (PyInt n)"
| "eval ns (Name x) = (case ns x of None \<Rightarrow> Inl NameError | Some v \<Rightarrow> Inr v)"
| "eval ns (Add a b) =
     (case eval ns a of
        Inl e \<Rightarrow> Inl e
      | Inr u \<Rightarrow> (case eval ns b of Inl e \<Rightarrow> Inl e | Inr v \<Rightarrow> py_add u v))"

text \<open>\<^verbatim>\<open>exec(code, ns)\<close> first binds \<^verbatim>\<open>__builtins__\<close> in \<open>ns\<close> when it is missing.\<close>

definition py_exec :: "string \<Rightarrow> namespace \<Rightarrow> exn option \<times> namespace" where
  "py_exec code ns =
     (let ns = (if ns ''__builtins__'' = None then ns(''__builtins__'' \<mapsto> PyBuiltins) else ns)
      in case parse_assign code of
           None \<Rightarrow> (Some Unsupported, ns)
         | Some (v, e) \<Rightarrow>
             (case eval ns e of Inl err \<Rightarrow> (Some err, ns) | Inr val \<Rightarrow> (None, ns(v \<mapsto> val))))"

text \<open>Cells, and a process state for concrete runs: a notebook \<^verbatim>\<open>m.ipynb\<close> in the
  current directory, the dictionary of the interactive session as object 0, a loader
  as object 1, nothing imported yet.\<close>

definition code_cell :: "string \<Rightarrow> cell" where
  "code_cell src = \<lparr>cell_type = ''code'', source = src\<rparr>"

definition markdown_cell :: "string \<Rightarrow> cell" where
  "markdown_cell src = \<lparr>cell_type = ''markdown'', source = src\<rparr>"

definition demo_world :: "cell list \<Rightarrow> world" where
  "demo_world cells =
     \<lparr>files = [''m.ipynb'' \<mapsto> Notebook cells], next_id = 2, heap = [0 \<mapsto> Map.empty],
      sys_modules = Map.empty, user_ns = 0\<rparr>"

definition demo_loader :: loader where
  "demo_loader = \<lparr>loader_id = 1, loader_path = None\<rparr>"

text \<open>The specification's reading of the loop over the cells: the sources of the
  executable fragments are run one after the other, each in the state the run before
  has left; the first failure ends the run.\<close>

fun run_fragments ::
  "(string \<Rightarrow> exn + string) \<Rightarrow> (string \<Rightarrow> nat \<Rightarrow> world \<Rightarrow> exn option \<times> world) \<Rightarrow>
   string list \<Rightarrow> nat \<Rightarrow> world \<Rightarrow> exn option \<times> world" where
  "run_fragments transform_cell exec [] md w = (None, w)"
| "run_fragments transform_cell exec (src # srcs) md w =
     (case transform_cell src of
        Inl e \<Rightarrow> (Some e, w)
      | Inr code \<Rightarrow>
          (case exec code md w of
             (Some e, w') \<Rightarrow> (Some e, w')
           | (None, w') \<Rightarrow> run_fragments transform_cell exec srcs md w'))"

definition executable_sources :: "cell list \<Rightarrow> string list" where
  "executable_sources cells = map source (filter (\<lambda>c. cell_type c = ''code'') cells)"

subsection \<open>The life of a finder, and states for concrete runs\<close>

text \<open>What happens to a finder between two of its calls: more calls of \<open>find_module\<close>,
  and other activity of the process, which may rewrite files, import modules and create
  objects, but never hands out an identity that is taken (a step that would is no
  step).\<close>

datatype event = Call string "string list option" | Env world

fun finder_steps :: "event list \<Rightarrow> finder \<times> world \<Rightarrow> finder \<times> world" where
  "finder_steps [] s = s"
| "finder_steps (Call fullname path # es) (self, w) =
     (case find_module self fullname path w of (r, self', w') \<Rightarrow> finder_steps es (self', w'))"
| "finder_steps (Env w' # es) (self, w) =
     finder_steps es (self, if next_id w \<le> next_id w' then w' else w)"

text \<open>The invariant of the cache: the loaders in it are objects of the process, and no
  object is cached under two keys.\<close>

definition finder_inv :: "finder \<Rightarrow> world \<Rightarrow> bool" where
  "finder_inv self w \<longleftrightarrow>
     (\<forall>k l. loaders self k = Some l \<longrightarrow> loader_id l < next_id w) \<and>
     (\<forall>k k' l l'. loaders self k = Some l \<and> loaders self k' = Some l' \<and>
        loader_id l = loader_id l' \<longrightarrow> k = k')"

text \<open>The file at \<open>p\<close> is rewritten.\<close>

definition edit_file :: "string \<Rightarrow> nbfile \<Rightarrow> world \<Rightarrow> world" where
  "edit_file p f w = w\<lparr>files := (files w)(p \<mapsto> f)\<rparr>"

text \<open>A process with a notebook \<^verbatim>\<open>m.ipynb\<close> in each of the directories \<^verbatim>\<open>a\<close> and
  \<^verbatim>\<open>a/b\<close>: the first binds \<^verbatim>\<open>x\<close> to 1, the second to 2.\<close>

definition two_dirs_world :: world where
  "two_dirs_world =
     \<lparr>files = [''a/m.ipynb'' \<mapsto> Notebook [code_cell ''x = 1''],
               ''a/b/m.ipynb'' \<mapsto> Notebook [code_cell ''x = 2'']],
      next_id = 1, heap = [0 \<mapsto> Map.empty], sys_modules = Map.empty, user_ns = 0\<rparr>"

section \<open>Properties of name resolution\<close>

lemma find_loop_find:
  "find_loop isfile name ds = List.find isfile (concat (map (tested_paths name) ds))"
  by (induction ds) (simp_all add: tested_paths_def Let_def)

lemma rsplit1_last_no_sep: "sep \<notin> set (last (rsplit1 sep s))"
proof (cases "sep \<in> set s")
  case True
  have "sep \<notin> set (takeWhile (\<lambda>c. c \<noteq> sep) (rev s))"
    by (auto dest: set_takeWhileD)
  with True show ?thesis by (simp add: rsplit1_def)
next
  case False
  then show ?thesis by (simp add: rsplit1_def)
qed

lemma rsplit1_last_suffix:
  "\<exists>pre. s = pre @ last (rsplit1 sep s) \<and> (pre = [] \<or> last pre = sep)"
proof (cases "sep \<in> set s")
  case False
  then show ?thesis by (simp add: rsplit1_def)
next
  case True
  let ?r = "rev s"
  let ?P = "\<lambda>c. c \<noteq> sep"
  from True have "dropWhile ?P ?r \<noteq> []"
    by simp
  moreover have "hd (dropWhile ?P ?r) = sep" if "dropWhile ?P ?r \<noteq> []"
    using hd_dropWhile [OF that] by simp
  ultimately obtain t where t: "dropWhile ?P ?r = sep # t"
    by (cases "dropWhile ?P ?r") auto
  have "?r = takeWhile ?P ?r @ sep # t"
    using takeWhile_dropWhile_id [of ?P ?r] t by simp
  then have "rev ?r = rev (takeWhile ?P ?r @ sep # t)" by simp
  then have s: "s = (rev t @ [sep]) @ rev (takeWhile ?P ?r)" by simp
  have "last (rsplit1 sep s) = rev (takeWhile ?P ?r)"
    using True by (simp add: rsplit1_def)
  with s show ?thesis
    by (intro exI [of _ "rev t @ [sep]"]) simp
qed


lemma path_join_empty: "path_join [] b = b"
  by (simp add: path_join_def)

lemma find_notebook_tested_paths:
  "find_notebook isfile fullname path =
     List.find isfile (concat (map (tested_paths (module_base fullname)) (search_dirs path)))"
  by (simp add: find_notebook_def find_loop_find)

text \<open>Where no directory of the search list has an underscore in its name, the loop
  tests the paths the specification names, so \<open>find_notebook\<close> is the search of the
  specification.\<close>

lemma str_replace_path_join:
  assumes "CHR ''_'' \<notin> set d"
  shows "str_replace CHR ''_'' CHR '' '' (path_join d b) =
    path_join d (str_replace CHR ''_'' CHR '' '' b)"
proof -
  let ?f = "\<lambda>c. if c = CHR ''_'' then CHR '' '' else c"
  from assms have d: "map ?f d = d"
    by (intro map_idI) auto
  have hd: "hd (map ?f b) = CHR ''/'' \<longleftrightarrow> hd b = CHR ''/''" if "b \<noteq> []"
    using that by (cases b) auto
  show ?thesis
    using d hd by (cases "b = []") (auto simp: path_join_def str_replace_def)
qed

lemma tested_paths_spec_candidates:
  "CHR ''_'' \<notin> set d \<Longrightarrow> tested_paths name d = spec_candidates name d"
  by (simp add: tested_paths_def spec_candidates_def str_replace_path_join)
    (simp add: str_replace_def)

lemma find_notebook_spec_without_underscore_dirs:
  assumes "\<forall>d\<in>set (search_dirs path). CHR ''_'' \<notin> set d"
  shows "find_notebook isfile fullname path = spec_find_notebook isfile fullname path"
proof -
  from assms have "map (tested_paths (module_base fullname)) (search_dirs path) =
      map (spec_candidates (module_base fullname)) (search_dirs path)"
    by (intro map_cong) (simp_all add: tested_paths_spec_candidates)
  then show ?thesis
    by (simp only: find_notebook_tested_paths spec_find_notebook_def)
qed

text \<open>
  C4. \<open>find_notebook\<close> does not always return the match of the first directory that
  has one. For the request \<^verbatim>\<open>Foo_Bar\<close> and the directories \<^verbatim>\<open>my_dir\<close> and
  \<^verbatim>\<open>other\<close>, where \<^verbatim>\<open>my_dir/Foo Bar.ipynb\<close> and \<^verbatim>\<open>other/Foo_Bar.ipynb\<close> exist, the
  first directory holds the underscore-to-blank variant, and the code returns the file
  of the second directory. For the directory \<^verbatim>\<open>my_dir\<close> alone, where no candidate
  of that directory exists but \<^verbatim>\<open>my dir/Foo Bar.ipynb\<close> does, the code returns that
  path of another directory, where the specification's search finds nothing.
\<close>

theorem find_notebook_skips_first_matching_directory:
  "find_notebook (\<lambda>p. p = ''my_dir/Foo Bar.ipynb'' \<or> p = ''other/Foo_Bar.ipynb'') ''Foo_Bar''
      (Some [''my_dir'', ''other'']) = Some ''other/Foo_Bar.ipynb'' \<and>
   spec_find_notebook (\<lambda>p. p = ''my_dir/Foo Bar.ipynb'' \<or> p = ''other/Foo_Bar.ipynb'') ''Foo_Bar''
      (Some [''my_dir'', ''other'']) = Some ''my_dir/Foo Bar.ipynb'' \<and>
   find_notebook (\<lambda>p. p = ''my dir/Foo Bar.ipynb'') ''Foo_Bar'' (Some [''my_dir''])
     = Some ''my dir/Foo Bar.ipynb'' \<and>
   spec_find_notebook (\<lambda>p. p = ''my dir/Foo Bar.ipynb'') ''Foo_Bar'' (Some [''my_dir'']) = None"
  by (intro conjI; code_simp)

text \<open>
  C8. With an absent or an empty search list, \<open>find_notebook\<close> does what it does for the
  list with the single entry \<^verbatim>\<open>''\<close>, the current directory: it tests
  \<^verbatim>\<open><base>.ipynb\<close> and then its underscore-to-blank variant, both relative to the
  current directory.
\<close>

theorem find_notebook_default_dir:
  "find_notebook isfile fullname None = find_notebook isfile fullname (Some ['''']) \<and>
   find_notebook isfile fullname (Some []) = find_notebook isfile fullname (Some ['''']) \<and>
   find_notebook isfile fullname (Some ['''']) =
     (if isfile (module_base fullname @ ''.ipynb'')
      then Some (module_base fullname @ ''.ipynb'')
      else if isfile (str_replace CHR ''_'' CHR '' '' (module_base fullname @ ''.ipynb''))
      then Some (str_replace CHR ''_'' CHR '' '' (module_base fullname @ ''.ipynb''))
      else None)"
  by (simp add: find_notebook_def search_dirs_def path_join_empty Let_def)

theorem find_notebook_default_dir_witness:
  "find_notebook (\<lambda>p. p = ''My Notebook.ipynb'') ''My_Notebook'' None = Some ''My Notebook.ipynb'' \<and>
   find_notebook (\<lambda>p. p = ''My Notebook.ipynb'') ''My_Notebook'' (Some []) = Some ''My Notebook.ipynb''"
proof -
  have base: "module_base ''My_Notebook'' = ''My_Notebook''"
    by code_simp
  show ?thesis
    using find_notebook_default_dir [of "\<lambda>p. p = ''My Notebook.ipynb''" "''My_Notebook''"]
    by (simp add: base str_replace_def)
qed

text \<open>
  C3. The fallback replaces underscores in the whole joined path, directory components
  included. With the directory \<^verbatim>\<open>my_dir\<close> and the request \<^verbatim>\<open>Foo_Bar\<close>: when only
  \<^verbatim>\<open>my_dir/Foo Bar.ipynb\<close> exists, nothing is found; when only
  \<^verbatim>\<open>my dir/Foo Bar.ipynb\<close> exists, in another directory, that file is returned.
\<close>

theorem find_notebook_fallback_rewrites_directory:
  "find_notebook (\<lambda>p. p = ''my_dir/Foo Bar.ipynb'') ''Foo_Bar'' (Some [''my_dir'']) = None \<and>
   find_notebook (\<lambda>p. p = ''my dir/Foo Bar.ipynb'') ''Foo_Bar'' (Some [''my_dir''])
     = Some ''my dir/Foo Bar.ipynb''"
  by (rule conjI; code_simp)


section \<open>Properties of the loader\<close>

text \<open>\<open>load_module\<close> once the notebook is found and parsed: the loop runs from
  \<open>loop_entry\<close>, and afterwards \<^verbatim>\<open>shell.user_ns\<close> is set back.\<close>

lemma load_module_loaded:
  assumes "find_notebook (os_path_isfile w) fullname (loader_path self) = Some p"
    and "files w p = Some (Notebook cells)"
  shows "load_module transform_cell exec self fullname w =
      (case exec_cells transform_cell exec cells (next_id w) (loop_entry self fullname p w) of
         (raised, w') \<Rightarrow>
           ((case raised of Some e \<Rightarrow> Inl e | None \<Rightarrow> Inr (next_id w)),
            w'\<lparr>user_ns := user_ns w\<rparr>))"
  using assms
  by (simp add: load_module_def loop_entry_def Let_def split: prod.splits option.splits)

lemma load_module_not_loaded:
  assumes "find_notebook (os_path_isfile w) fullname (loader_path self) = None \<or>
     (\<exists>p. find_notebook (os_path_isfile w) fullname (loader_path self) = Some p \<and>
          (files w p = None \<or> files w p = Some Malformed))"
  shows "\<exists>e. load_module transform_cell exec self fullname w = (Inl e, w)"
  using assms by (auto simp: load_module_def)

lemma load_module_outcomes:
  "(\<exists>e. load_module transform_cell exec self fullname w = (Inl e, w)) \<or>
   (\<exists>p cells. find_notebook (os_path_isfile w) fullname (loader_path self) = Some p \<and>
      files w p = Some (Notebook cells))"
proof (cases "find_notebook (os_path_isfile w) fullname (loader_path self)")
  case None
  then show ?thesis using load_module_not_loaded by blast
next
  case (Some p)
  show ?thesis
  proof (cases "files w p")
    case None
    with Some show ?thesis using load_module_not_loaded by blast
  next
    case (Some f)
    with \<open>find_notebook (os_path_isfile w) fullname (loader_path self) = Some p\<close>
    show ?thesis using load_module_not_loaded by (cases f) blast+
  qed
qed

lemma load_module_result:
  assumes "find_notebook (os_path_isfile w) fullname (loader_path self) = Some p"
    and "files w p = Some (Notebook cells)"
  shows "fst (load_module transform_cell exec self fullname w) =
      (case fst (exec_cells transform_cell exec cells (next_id w) (loop_entry self fullname p w)) of
         Some e \<Rightarrow> Inl e | None \<Rightarrow> Inr (next_id w))"
    and "snd (load_module transform_cell exec self fullname w) =
      (snd (exec_cells transform_cell exec cells (next_id w) (loop_entry self fullname p w)))
        \<lparr>user_ns := user_ns w\<rparr>"
  by (simp_all add: load_module_loaded [OF assms] split_beta)

lemma exec_cells_run_fragments:
  "exec_cells transform_cell exec cells md w =
     run_fragments transform_cell exec (executable_sources cells) md w"
  by (induction cells arbitrary: w)
    (simp_all add: executable_sources_def split: sum.splits prod.splits option.splits)

lemma exec_cells_skip:
  "\<forall>c\<in>set pre. cell_type c \<noteq> ''code'' \<Longrightarrow>
   exec_cells transform_cell exec (pre @ rest) md w = exec_cells transform_cell exec rest md w"
  by (induction pre) simp_all

lemma exec_cells_first:
  assumes "cells = pre @ c # rest \<and> (\<forall>c'\<in>set pre. cell_type c' \<noteq> ''code'') \<and>
    cell_type c = ''code''"
  shows "exec_cells transform_cell exec cells md w =
    (case transform_cell (source c) of
       Inl e \<Rightarrow> (Some e, w)
     | Inr code \<Rightarrow>
         (case exec code md w of
            (Some e, w') \<Rightarrow> (Some e, w')
          | (None, w') \<Rightarrow> exec_cells transform_cell exec rest md w'))"
  using assms exec_cells_skip [of pre transform_cell exec "c # rest" md w] by simp

lemma exec_cells_new_binding:
  "module_attr (snd (exec_cells transform_cell exec cells md w)) md x = Some v \<Longrightarrow>
   module_attr w md x = None \<Longrightarrow>
   \<exists>c\<in>set cells. cell_type c = ''code'' \<and>
     (\<exists>code u. transform_cell (source c) = Inr code \<and> module_attr u md x = None \<and>
        module_attr (snd (exec code md u)) md x \<noteq> None)"
proof (induction cells arbitrary: w)
  case Nil
  then show ?case by simp
next
  case (Cons c cs)
  show ?case
  proof (cases "cell_type c = ''code''")
    case False
    with Cons.prems have "module_attr (snd (exec_cells transform_cell exec cs md w)) md x = Some v"
      by simp
    from Cons.IH [OF this Cons.prems(2)] show ?thesis by auto
  next
    case True
    show ?thesis
    proof (cases "transform_cell (source c)")
      case (Inl e)
      with True Cons.prems show ?thesis by simp
    next
      case (Inr code)
      obtain r w' where step: "exec code md w = (r, w')" by (cases "exec code md w")
      show ?thesis
      proof (cases "module_attr w' md x")
        case (Some u)
        with step have "module_attr (snd (exec code md w)) md x \<noteq> None" by simp
        with True Inr Cons.prems(2) show ?thesis by auto
      next
        case None
        show ?thesis
        proof (cases r)
          case (Some e)
          with True Inr step Cons.prems(1) None show ?thesis by simp
        next
          case no_exn: None
          with True Inr step Cons.prems(1)
          have "module_attr (snd (exec_cells transform_cell exec cs md w')) md x = Some v" by simp
          from Cons.IH [OF this None] show ?thesis by auto
        qed
      qed
    qed
  qed
qed

lemma exec_cells_keeps_entry:
  assumes "\<forall>code md u. sys_modules (snd (exec code md u)) name = sys_modules u name"
  shows "sys_modules (snd (exec_cells transform_cell exec cells md w)) name = sys_modules w name"
proof (induction cells arbitrary: w)
  case Nil
  then show ?case by simp
next
  case (Cons c cs)
  show ?case
  proof (cases "cell_type c = ''code''")
    case False
    with Cons.IH show ?thesis by simp
  next
    case True
    show ?thesis
    proof (cases "transform_cell (source c)")
      case (Inl e)
      with True show ?thesis by simp
    next
      case (Inr code)
      obtain r w' where step: "exec code md w = (r, w')" by (cases "exec code md w")
      from assms have "sys_modules (snd (exec code md w)) name = sys_modules w name" by blast
      with step have kept: "sys_modules w' name = sys_modules w name" by simp
      from True Inr step kept Cons.IH [of w'] show ?thesis
        by (cases r) simp_all
    qed
  qed
qed

lemma run_fragments_append:
  "run_fragments transform_cell exec (srcs1 @ srcs2) md w =
     (case run_fragments transform_cell exec srcs1 md w of
        (Some e, w') \<Rightarrow> (Some e, w')
      | (None, w') \<Rightarrow> run_fragments transform_cell exec srcs2 md w')"
  by (induction srcs1 arbitrary: w) (simp_all split: sum.splits prod.splits option.splits)

lemma dom_module_dict:
  "dom (module_dict self fullname p) =
     {''__name__'', ''__doc__'', ''__package__'', ''__spec__'', ''__file__'', ''__loader__'',
      ''get_ipython''}"
  unfolding module_dict_def ModuleType_def by (simp only: dom_map_upds dom_fun_upd dom_empty) auto

lemma on_namespace_sys_modules:
  "sys_modules (snd (on_namespace f code md u)) = sys_modules u"
  by (simp add: on_namespace_def split: option.splits prod.splits)

text \<open>Concrete runs of the loader on the notebook \<^verbatim>\<open>m.ipynb\<close>.\<close>

lemma demo_found:
  "find_notebook (os_path_isfile (demo_world cells)) ''m'' (loader_path demo_loader) = Some ''m.ipynb''"
  by (simp add: find_notebook_def module_base_def rsplit1_def search_dirs_def demo_loader_def
      path_join_def os_path_isfile_def demo_world_def Let_def)

lemma demo_parsed: "files (demo_world cells) ''m.ipynb'' = Some (Notebook cells)"
  by (simp add: demo_world_def)

lemma demo_next_id: "next_id (demo_world cells) = 2"
  by (simp add: demo_world_def)

text \<open>
  C9. Every call of \<open>load_module\<close> leaves \<^verbatim>\<open>shell.user_ns\<close> referring to the dictionary
  it referred to before the call, whether the call returns, a fragment raises, or the
  call fails before the module is created, and whatever the fragments do to
  \<^verbatim>\<open>shell.user_ns\<close> themselves.
\<close>

theorem load_module_restores_user_ns:
  "user_ns (snd (load_module transform_cell exec self fullname w)) = user_ns w"
  by (simp add: load_module_def Let_def split: option.splits nbfile.splits prod.splits)

theorem load_module_restores_user_ns_witness:
  "fst (load_module Inr (on_namespace py_exec) demo_loader ''m''
      (demo_world [code_cell ''x = 1'', code_cell ''y = x + 1''])) = Inr 2 \<and>
   user_ns (snd (load_module Inr (on_namespace py_exec) demo_loader ''m''
      (demo_world [code_cell ''x = 1'', code_cell ''y = x + 1'']))) = 0 \<and>
   fst (load_module Inr (on_namespace py_exec) demo_loader ''m''
      (demo_world [code_cell ''x = 1'', code_cell ''y = z''])) = Inl NameError \<and>
   user_ns (snd (load_module Inr (on_namespace py_exec) demo_loader ''m''
      (demo_world [code_cell ''x = 1'', code_cell ''y = z'']))) = 0"
proof -
  have ok: "fst (load_module Inr (on_namespace py_exec) demo_loader ''m''
      (demo_world [code_cell ''x = 1'', code_cell ''y = x + 1''])) = Inr 2"
    by code_simp
  have raised: "fst (load_module Inr (on_namespace py_exec) demo_loader ''m''
      (demo_world [code_cell ''x = 1'', code_cell ''y = z''])) = Inl NameError"
    by code_simp
  have before: "user_ns (demo_world cells) = 0" for cells
    by (simp add: demo_world_def)
  show ?thesis
    using ok raised
      load_module_restores_user_ns [of Inr "on_namespace py_exec" demo_loader "''m''"
        "demo_world [code_cell ''x = 1'', code_cell ''y = x + 1'']"]
      load_module_restores_user_ns [of Inr "on_namespace py_exec" demo_loader "''m''"
        "demo_world [code_cell ''x = 1'', code_cell ''y = z'']"]
    by (simp only: before simp_thms)
qed

text \<open>
  C1, as the code has it. Once the notebook is found and parsed, \<open>load_module\<close> binds
  the requested name in \<^verbatim>\<open>sys.modules\<close> to the new module before any fragment is
  executed: the loop starts in a state where the name is bound to the module, and that
  is the state the first executable fragment is executed in. After the loop
  \<open>load_module\<close> changes nothing in \<^verbatim>\<open>sys.modules\<close>: it is as the fragments have
  left it, whether one of them has raised or not. So when the fragments do not rebind the
  name themselves, the module stays registered under it, also when the call ends with
  the exception of a fragment. When \<^verbatim>\<open>sys.modules\<close> differs after the call, the
  notebook was found and parsed.
\<close>

theorem load_module_registers_before_exec:
  "(find_notebook (os_path_isfile w) fullname (loader_path self) = Some p \<and>
    files w p = Some (Notebook cells) \<longrightarrow>
      sys_modules (loop_entry self fullname p w) = (sys_modules w)(fullname \<mapsto> next_id w) \<and>
      load_module transform_cell exec self fullname w =
        (case exec_cells transform_cell exec cells (next_id w) (loop_entry self fullname p w) of
           (raised, w') \<Rightarrow>
             ((case raised of Some e \<Rightarrow> Inl e | None \<Rightarrow> Inr (next_id w)),
              w'\<lparr>user_ns := user_ns w\<rparr>)) \<and>
      (\<forall>pre c rest code.
         cells = pre @ c # rest \<and> (\<forall>c'\<in>set pre. cell_type c' \<noteq> ''code'') \<and>
         cell_type c = ''code'' \<and> transform_cell (source c) = Inr code \<longrightarrow>
           exec_cells transform_cell exec cells (next_id w) (loop_entry self fullname p w) =
             (case exec code (next_id w) (loop_entry self fullname p w) of
                (Some e, w') \<Rightarrow> (Some e, w')
              | (None, w') \<Rightarrow> exec_cells transform_cell exec rest (next_id w) w')) \<and>
      sys_modules (snd (load_module transform_cell exec self fullname w)) =
        sys_modules (snd (exec_cells transform_cell exec cells (next_id w)
          (loop_entry self fullname p w))) \<and>
      ((\<forall>code md u. sys_modules (snd (exec code md u)) fullname = sys_modules u fullname) \<longrightarrow>
         sys_modules (snd (load_module transform_cell exec self fullname w)) fullname =
           Some (next_id w))) \<and>
   (sys_modules (snd (load_module transform_cell exec self fullname w)) \<noteq> sys_modules w \<longrightarrow>
      (\<exists>p cells. find_notebook (os_path_isfile w) fullname (loader_path self) = Some p \<and>
         files w p = Some (Notebook cells)))"
proof (intro conjI impI)
  assume loaded: "find_notebook (os_path_isfile w) fullname (loader_path self) = Some p \<and>
    files w p = Some (Notebook cells)"
  let ?entry = "loop_entry self fullname p w"
  let ?md = "next_id w"
  from loaded have found: "find_notebook (os_path_isfile w) fullname (loader_path self) = Some p"
    and parsed: "files w p = Some (Notebook cells)"
    by simp_all
  show registered: "sys_modules ?entry = (sys_modules w)(fullname \<mapsto> ?md)"
    by (simp add: loop_entry_def)
  show "load_module transform_cell exec self fullname w =
      (case exec_cells transform_cell exec cells ?md ?entry of
         (raised, w') \<Rightarrow>
           ((case raised of Some e \<Rightarrow> Inl e | None \<Rightarrow> Inr ?md), w'\<lparr>user_ns := user_ns w\<rparr>))"
    using found parsed by (rule load_module_loaded)
  show "\<forall>pre c rest code.
       cells = pre @ c # rest \<and> (\<forall>c'\<in>set pre. cell_type c' \<noteq> ''code'') \<and>
       cell_type c = ''code'' \<and> transform_cell (source c) = Inr code \<longrightarrow>
         exec_cells transform_cell exec cells ?md ?entry =
           (case exec code ?md ?entry of
              (Some e, w') \<Rightarrow> (Some e, w')
            | (None, w') \<Rightarrow> exec_cells transform_cell exec rest ?md w')"
  proof (intro allI impI)
    fix pre c rest code
    assume first: "cells = pre @ c # rest \<and> (\<forall>c'\<in>set pre. cell_type c' \<noteq> ''code'') \<and>
      cell_type c = ''code'' \<and> transform_cell (source c) = Inr code"
    then have "cells = pre @ c # rest \<and> (\<forall>c'\<in>set pre. cell_type c' \<noteq> ''code'') \<and>
      cell_type c = ''code''"
      by blast
    from exec_cells_first [OF this, of transform_cell exec ?md ?entry] first
    show "exec_cells transform_cell exec cells ?md ?entry =
        (case exec code ?md ?entry of
           (Some e, w') \<Rightarrow> (Some e, w')
         | (None, w') \<Rightarrow> exec_cells transform_cell exec rest ?md w')"
      by simp
  qed
  show after: "sys_modules (snd (load_module transform_cell exec self fullname w)) =
      sys_modules (snd (exec_cells transform_cell exec cells ?md ?entry))"
    by (simp add: load_module_result(2) [OF found parsed])
  show "sys_modules (snd (load_module transform_cell exec self fullname w)) fullname = Some ?md"
    if frame: "\<forall>code md u. sys_modules (snd (exec code md u)) fullname = sys_modules u fullname"
    using exec_cells_keeps_entry [OF frame, of transform_cell cells ?md ?entry] after registered
    by simp
next
  assume "sys_modules (snd (load_module transform_cell exec self fullname w)) \<noteq> sys_modules w"
  then have "\<not> (\<exists>e. load_module transform_cell exec self fullname w = (Inl e, w))"
    by auto
  with load_module_outcomes [of transform_cell exec self fullname w]
  show "\<exists>p cells. find_notebook (os_path_isfile w) fullname (loader_path self) = Some p \<and>
      files w p = Some (Notebook cells)"
    by blast
qed

text \<open>A document whose second fragment raises NameError: the import fails, and module 2
  is registered as \<^verbatim>\<open>m\<close>. And a fragment that raises unless its module is registered
  as \<^verbatim>\<open>m\<close> when it runs: the import returns.\<close>

theorem load_module_registers_before_exec_witness:
  "fst (load_module Inr (on_namespace py_exec) demo_loader ''m''
      (demo_world [code_cell ''x = 1'', code_cell ''y = z''])) = Inl NameError \<and>
   sys_modules (snd (load_module Inr (on_namespace py_exec) demo_loader ''m''
      (demo_world [code_cell ''x = 1'', code_cell ''y = z'']))) ''m'' = Some 2 \<and>
   fst (load_module Inr
      (\<lambda>code md u. (if sys_modules u ''m'' = Some md then None else Some NameError, u))
      demo_loader ''m'' (demo_world [code_cell ''check''])) = Inr 2"
proof -
  have seen: "fst (load_module Inr
      (\<lambda>code md u. (if sys_modules u ''m'' = Some md then None else Some NameError, u))
      demo_loader ''m'' (demo_world [code_cell ''check''])) = Inr 2"
    by code_simp
  let ?cells = "[code_cell ''x = 1'', code_cell ''y = z'']"
  have raised: "fst (load_module Inr (on_namespace py_exec) demo_loader ''m'' (demo_world ?cells))
      = Inl NameError"
    by code_simp
  have frame: "\<forall>code md u. sys_modules (snd (on_namespace py_exec code md u)) ''m'' = sys_modules u ''m''"
    by (simp add: on_namespace_sys_modules)
  from load_module_registers_before_exec
      [of "demo_world ?cells" "''m''" demo_loader "''m.ipynb''" ?cells Inr "on_namespace py_exec"]
    demo_found [of ?cells] demo_parsed [of ?cells] frame
  have "sys_modules (snd (load_module Inr (on_namespace py_exec) demo_loader ''m''
      (demo_world ?cells))) ''m'' = Some (next_id (demo_world ?cells))"
    by blast
  with raised seen show ?thesis by (simp add: demo_next_id)
qed

text \<open>The claim as the specification states it fails on that document: no module was
  registered as \<^verbatim>\<open>m\<close> before the import, the second fragment raises, and afterwards
  \<^verbatim>\<open>sys.modules\<close> holds the partially populated module under \<^verbatim>\<open>m\<close>.\<close>

theorem load_module_failure_leaves_module_registered:
  "sys_modules (demo_world [code_cell ''x = 1'', code_cell ''y = z'']) ''m'' = None \<and>
   fst (load_module Inr (on_namespace py_exec) demo_loader ''m''
      (demo_world [code_cell ''x = 1'', code_cell ''y = z''])) = Inl NameError \<and>
   sys_modules (snd (load_module Inr (on_namespace py_exec) demo_loader ''m''
      (demo_world [code_cell ''x = 1'', code_cell ''y = z'']))) ''m'' = Some 2 \<and>
   module_attr (snd (load_module Inr (on_namespace py_exec) demo_loader ''m''
      (demo_world [code_cell ''x = 1'', code_cell ''y = z'']))) 2 ''x'' = Some (PyInt 1) \<and>
   module_attr (snd (load_module Inr (on_namespace py_exec) demo_loader ''m''
      (demo_world [code_cell ''x = 1'', code_cell ''y = z'']))) 2 ''y'' = None"
  by (intro conjI; code_simp)

text \<open>
  C2, as the code has it. The namespace is not empty when the first fragment runs: it is
  the dictionary of the new module, with \<^verbatim>\<open>__name__\<close>, \<^verbatim>\<open>__doc__\<close>,
  \<^verbatim>\<open>__package__\<close> and \<^verbatim>\<open>__spec__\<close> from the module's creation and \<^verbatim>\<open>__file__\<close>,
  \<^verbatim>\<open>__loader__\<close> and \<^verbatim>\<open>get_ipython\<close> as \<open>load_module\<close> sets them. The first
  executable fragment is executed against exactly this dictionary, in the state in which
  the loop starts; the call ends in the state the fragments have left, and every binding
  of the module to a name outside these seven was made by the execution of an executable
  fragment.
\<close>

theorem load_module_initial_namespace:
  "find_notebook (os_path_isfile w) fullname (loader_path self) = Some p \<and>
   files w p = Some (Notebook cells) \<longrightarrow>
     dom (module_dict self fullname p) =
       {''__name__'', ''__doc__'', ''__package__'', ''__spec__'', ''__file__'', ''__loader__'',
        ''get_ipython''} \<and>
     module_dict self fullname p ''__name__'' = Some (PyStr fullname) \<and>
     module_dict self fullname p ''__file__'' = Some (PyStr p) \<and>
     module_dict self fullname p ''__loader__'' = Some (PyRef (loader_id self)) \<and>
     module_dict self fullname p ''get_ipython'' = Some (PyFunc ''get_ipython'') \<and>
     heap (loop_entry self fullname p w) (next_id w) = Some (module_dict self fullname p) \<and>
     load_module transform_cell exec self fullname w =
       (case exec_cells transform_cell exec cells (next_id w) (loop_entry self fullname p w) of
          (raised, w') \<Rightarrow>
            ((case raised of Some e \<Rightarrow> Inl e | None \<Rightarrow> Inr (next_id w)),
             w'\<lparr>user_ns := user_ns w\<rparr>)) \<and>
     (\<forall>pre c rest.
        cells = pre @ c # rest \<and> (\<forall>c'\<in>set pre. cell_type c' \<noteq> ''code'') \<and>
        cell_type c = ''code'' \<longrightarrow>
          exec_cells transform_cell exec cells (next_id w) (loop_entry self fullname p w) =
            (case transform_cell (source c) of
               Inl e \<Rightarrow> (Some e, loop_entry self fullname p w)
             | Inr code \<Rightarrow>
                 (case exec code (next_id w) (loop_entry self fullname p w) of
                    (Some e, w') \<Rightarrow> (Some e, w')
                  | (None, w') \<Rightarrow> exec_cells transform_cell exec rest (next_id w) w'))) \<and>
     (\<forall>x v.
        x \<notin> dom (module_dict self fullname p) \<and>
        module_attr (snd (load_module transform_cell exec self fullname w)) (next_id w) x = Some v \<longrightarrow>
          (\<exists>c\<in>set cells. cell_type c = ''code'' \<and>
             (\<exists>code u. transform_cell (source c) = Inr code \<and>
                module_attr u (next_id w) x = None \<and>
                module_attr (snd (exec code (next_id w) u)) (next_id w) x \<noteq> None)))"
proof (intro impI)
  assume loaded: "find_notebook (os_path_isfile w) fullname (loader_path self) = Some p \<and>
    files w p = Some (Notebook cells)"
  let ?ns = "module_dict self fullname p"
  let ?entry = "loop_entry self fullname p w"
  let ?md = "next_id w"
  from loaded have found: "find_notebook (os_path_isfile w) fullname (loader_path self) = Some p"
    and parsed: "files w p = Some (Notebook cells)"
    by simp_all
  have bindings:
    "?ns ''__name__'' = Some (PyStr fullname)"
    "?ns ''__file__'' = Some (PyStr p)"
    "?ns ''__loader__'' = Some (PyRef (loader_id self))"
    "?ns ''get_ipython'' = Some (PyFunc ''get_ipython'')"
    by (simp_all add: module_dict_def ModuleType_def)
  have start: "heap ?entry ?md = Some ?ns"
    by (simp add: loop_entry_def)
  note run = load_module_loaded [OF found parsed, of transform_cell exec]
  have first: "exec_cells transform_cell exec cells ?md ?entry =
      (case transform_cell (source c) of
         Inl e \<Rightarrow> (Some e, ?entry)
       | Inr code \<Rightarrow>
           (case exec code ?md ?entry of
              (Some e, w') \<Rightarrow> (Some e, w')
            | (None, w') \<Rightarrow> exec_cells transform_cell exec rest ?md w'))"
    if "cells = pre @ c # rest \<and> (\<forall>c'\<in>set pre. cell_type c' \<noteq> ''code'') \<and> cell_type c = ''code''"
    for pre c rest
    using that by (rule exec_cells_first)
  have made: "\<exists>c\<in>set cells. cell_type c = ''code'' \<and>
       (\<exists>code u. transform_cell (source c) = Inr code \<and> module_attr u ?md x = None \<and>
          module_attr (snd (exec code ?md u)) ?md x \<noteq> None)"
    if "x \<notin> dom ?ns \<and>
      module_attr (snd (load_module transform_cell exec self fullname w)) ?md x = Some v"
    for x v
  proof -
    from that have "?ns x = None" by blast
    with start have unbound: "module_attr ?entry ?md x = None"
      by (simp add: module_attr_def)
    from that have "module_attr (snd (exec_cells transform_cell exec cells ?md ?entry)) ?md x = Some v"
      by (simp add: load_module_result(2) [OF found parsed] module_attr_def)
    from exec_cells_new_binding [OF this unbound] show ?thesis .
  qed
  from dom_module_dict [of self fullname p] bindings start run first made
  show "dom ?ns =
       {''__name__'', ''__doc__'', ''__package__'', ''__spec__'', ''__file__'', ''__loader__'',
        ''get_ipython''} \<and>
     ?ns ''__name__'' = Some (PyStr fullname) \<and>
     ?ns ''__file__'' = Some (PyStr p) \<and>
     ?ns ''__loader__'' = Some (PyRef (loader_id self)) \<and>
     ?ns ''get_ipython'' = Some (PyFunc ''get_ipython'') \<and>
     heap ?entry ?md = Some ?ns \<and>
     load_module transform_cell exec self fullname w =
       (case exec_cells transform_cell exec cells ?md ?entry of
          (raised, w') \<Rightarrow>
            ((case raised of Some e \<Rightarrow> Inl e | None \<Rightarrow> Inr ?md), w'\<lparr>user_ns := user_ns w\<rparr>)) \<and>
     (\<forall>pre c rest.
        cells = pre @ c # rest \<and> (\<forall>c'\<in>set pre. cell_type c' \<noteq> ''code'') \<and>
        cell_type c = ''code'' \<longrightarrow>
          exec_cells transform_cell exec cells ?md ?entry =
            (case transform_cell (source c) of
               Inl e \<Rightarrow> (Some e, ?entry)
             | Inr code \<Rightarrow>
                 (case exec code ?md ?entry of
                    (Some e, w') \<Rightarrow> (Some e, w')
                  | (None, w') \<Rightarrow> exec_cells transform_cell exec rest ?md w'))) \<and>
     (\<forall>x v.
        x \<notin> dom ?ns \<and>
        module_attr (snd (load_module transform_cell exec self fullname w)) ?md x = Some v \<longrightarrow>
          (\<exists>c\<in>set cells. cell_type c = ''code'' \<and>
             (\<exists>code u. transform_cell (source c) = Inr code \<and> module_attr u ?md x = None \<and>
                module_attr (snd (exec code ?md u)) ?md x \<noteq> None)))"
    by (intro conjI allI impI) assumption+
qed

text \<open>A document with a heading and one fragment \<^verbatim>\<open>x = 1\<close>: the imported module has
  \<^verbatim>\<open>__file__\<close> from the loader and \<^verbatim>\<open>x\<close> from the fragment.\<close>

theorem load_module_initial_namespace_witness:
  "module_attr (snd (load_module Inr (on_namespace py_exec) demo_loader ''m''
      (demo_world [markdown_cell ''# Title'', code_cell ''x = 1'']))) 2 ''__file__''
     = Some (PyStr ''m.ipynb'') \<and>
   module_attr (snd (load_module Inr (on_namespace py_exec) demo_loader ''m''
      (demo_world [markdown_cell ''# Title'', code_cell ''x = 1'']))) 2 ''x'' = Some (PyInt 1)"
proof -
  let ?cells = "[markdown_cell ''# Title'', code_cell ''x = 1'']"
  let ?run = "exec_cells Inr (on_namespace py_exec) ?cells 2
    (loop_entry demo_loader ''m'' ''m.ipynb'' (demo_world ?cells))"
  have x: "module_attr (snd ?run) 2 ''x'' = Some (PyInt 1)"
    by code_simp
  have f: "module_attr (snd ?run) 2 ''__file__'' = Some (PyStr ''m.ipynb'')"
    by code_simp
  from load_module_initial_namespace
      [of "demo_world ?cells" "''m''" demo_loader "''m.ipynb''" ?cells Inr "on_namespace py_exec"]
    demo_found [of ?cells] demo_parsed [of ?cells]
  have "load_module Inr (on_namespace py_exec) demo_loader ''m'' (demo_world ?cells) =
      (case ?run of (raised, w') \<Rightarrow>
         ((case raised of Some e \<Rightarrow> Inl e | None \<Rightarrow> Inr 2),
          w'\<lparr>user_ns := user_ns (demo_world ?cells)\<rparr>))"
    by (simp only: demo_next_id simp_thms)
  then have "module_attr (snd (load_module Inr (on_namespace py_exec) demo_loader ''m''
      (demo_world ?cells))) 2 name = module_attr (snd ?run) 2 name" for name
    by (simp add: split_beta module_attr_def)
  with x f show ?thesis by simp
qed

text \<open>The claim as the specification states it fails on a document without any
  executable fragment: nothing is executed, and the imported module has bindings.\<close>

theorem load_module_namespace_not_empty:
  "executable_sources [markdown_cell ''# Title''] = [] \<and>
   fst (load_module Inr (on_namespace py_exec) demo_loader ''m''
      (demo_world [markdown_cell ''# Title''])) = Inr 2 \<and>
   module_attr (snd (load_module Inr (on_namespace py_exec) demo_loader ''m''
      (demo_world [markdown_cell ''# Title'']))) 2 ''get_ipython'' = Some (PyFunc ''get_ipython'') \<and>
   module_attr (snd (load_module Inr (on_namespace py_exec) demo_loader ''m''
      (demo_world [markdown_cell ''# Title'']))) 2 ''__file__'' = Some (PyStr ''m.ipynb'') \<and>
   module_attr (snd (load_module Inr (on_namespace py_exec) demo_loader ''m''
      (demo_world [markdown_cell ''# Title'']))) 2 ''__loader__'' = Some (PyRef 1) \<and>
   module_dict demo_loader ''m'' ''m.ipynb'' \<noteq> Map.empty"
proof -
  have "module_dict demo_loader ''m'' ''m.ipynb'' ''get_ipython'' \<noteq> Map.empty ''get_ipython''"
    by (simp add: module_dict_def)
  then have "module_dict demo_loader ''m'' ''m.ipynb'' \<noteq> Map.empty"
    by metis
  moreover have "executable_sources [markdown_cell ''# Title''] = []"
    by code_simp
  moreover have "fst (load_module Inr (on_namespace py_exec) demo_loader ''m''
      (demo_world [markdown_cell ''# Title''])) = Inr 2"
    by code_simp
  moreover have "module_attr (snd (load_module Inr (on_namespace py_exec) demo_loader ''m''
      (demo_world [markdown_cell ''# Title'']))) 2 ''get_ipython'' = Some (PyFunc ''get_ipython'')"
    by code_simp
  moreover have "module_attr (snd (load_module Inr (on_namespace py_exec) demo_loader ''m''
      (demo_world [markdown_cell ''# Title'']))) 2 ''__file__'' = Some (PyStr ''m.ipynb'')"
    by code_simp
  moreover have "module_attr (snd (load_module Inr (on_namespace py_exec) demo_loader ''m''
      (demo_world [markdown_cell ''# Title'']))) 2 ''__loader__'' = Some (PyRef 1)"
    by code_simp
  ultimately show ?thesis by blast
qed

text \<open>
  C5. \<open>load_module\<close> executes exactly the fragments whose \<^verbatim>\<open>cell_type\<close> is
  \<^verbatim>\<open>code\<close>, in document order, each in the state the fragments before it have left,
  all with the dictionary of the one new module as globals: its result and the state it
  leaves are those of running the sources of the executable cells one after the other
  from the start of the loop, where the module's dictionary is the new one, and running
  a sequence of fragments is running its first part and then the rest in the state the
  first part has left. For the fragments \<^verbatim>\<open>x = 1\<close> and \<^verbatim>\<open>y = x + 1\<close>, the import
  succeeds and \<^verbatim>\<open>y\<close> is 2 in the module.
\<close>

theorem load_module_runs_code_cells_in_order:
  "(find_notebook (os_path_isfile w) fullname (loader_path self) = Some p \<and>
    files w p = Some (Notebook cells) \<longrightarrow>
      heap (loop_entry self fullname p w) (next_id w) = Some (module_dict self fullname p) \<and>
      fst (load_module transform_cell exec self fullname w) =
        (case fst (run_fragments transform_cell exec
                    (map source (filter (\<lambda>c. cell_type c = ''code'') cells))
                    (next_id w) (loop_entry self fullname p w)) of
           Some e \<Rightarrow> Inl e
         | None \<Rightarrow> Inr (next_id w)) \<and>
      snd (load_module transform_cell exec self fullname w) =
        (snd (run_fragments transform_cell exec
                (map source (filter (\<lambda>c. cell_type c = ''code'') cells))
                (next_id w) (loop_entry self fullname p w)))
          \<lparr>user_ns := user_ns w\<rparr>) \<and>
   run_fragments transform_cell exec (srcs1 @ srcs2) md u =
     (case run_fragments transform_cell exec srcs1 md u of
        (Some e, u') \<Rightarrow> (Some e, u')
      | (None, u') \<Rightarrow> run_fragments transform_cell exec srcs2 md u') \<and>
   fst (load_module Inr (on_namespace py_exec) demo_loader ''m''
      (demo_world [code_cell ''x = 1'', code_cell ''y = x + 1''])) = Inr 2 \<and>
   module_attr (snd (load_module Inr (on_namespace py_exec) demo_loader ''m''
      (demo_world [code_cell ''x = 1'', code_cell ''y = x + 1'']))) 2 ''y'' = Some (PyInt 2)"
proof -
  have general: "heap (loop_entry self fullname p w) (next_id w) = Some (module_dict self fullname p) \<and>
      fst (load_module transform_cell exec self fullname w) =
        (case fst (run_fragments transform_cell exec
                    (map source (filter (\<lambda>c. cell_type c = ''code'') cells))
                    (next_id w) (loop_entry self fullname p w)) of
           Some e \<Rightarrow> Inl e
         | None \<Rightarrow> Inr (next_id w)) \<and>
      snd (load_module transform_cell exec self fullname w) =
        (snd (run_fragments transform_cell exec
                (map source (filter (\<lambda>c. cell_type c = ''code'') cells))
                (next_id w) (loop_entry self fullname p w)))
          \<lparr>user_ns := user_ns w\<rparr>"
    if loaded: "find_notebook (os_path_isfile w) fullname (loader_path self) = Some p \<and>
      files w p = Some (Notebook cells)"
  proof -
    from loaded have found: "find_notebook (os_path_isfile w) fullname (loader_path self) = Some p"
      and parsed: "files w p = Some (Notebook cells)"
      by simp_all
    have "heap (loop_entry self fullname p w) (next_id w) = Some (module_dict self fullname p)"
      by (simp add: loop_entry_def)
    with load_module_result [OF found parsed, of transform_cell exec]
      exec_cells_run_fragments
        [of transform_cell exec cells "next_id w" "loop_entry self fullname p w"]
    show ?thesis by (simp add: executable_sources_def)
  qed
  have ok: "fst (load_module Inr (on_namespace py_exec) demo_loader ''m''
      (demo_world [code_cell ''x = 1'', code_cell ''y = x + 1''])) = Inr 2"
    by code_simp
  have y: "module_attr (snd (load_module Inr (on_namespace py_exec) demo_loader ''m''
      (demo_world [code_cell ''x = 1'', code_cell ''y = x + 1'']))) 2 ''y'' = Some (PyInt 2)"
    by code_simp
  from general run_fragments_append [of transform_cell exec srcs1 srcs2 md u] ok y
  show ?thesis by blast
qed

text \<open>The same two fragments between cells of prose: the prose is skipped, and the
  second fragment sees \<^verbatim>\<open>x\<close>.\<close>

theorem load_module_runs_code_cells_in_order_witness:
  "fst (load_module Inr (on_namespace py_exec) demo_loader ''m''
      (demo_world [markdown_cell ''# Title'', code_cell ''x = 1'', markdown_cell ''then'',
         code_cell ''y = x + 1''])) = Inr 2 \<and>
   module_attr (snd (load_module Inr (on_namespace py_exec) demo_loader ''m''
      (demo_world [markdown_cell ''# Title'', code_cell ''x = 1'', markdown_cell ''then'',
         code_cell ''y = x + 1'']))) 2 ''y'' = Some (PyInt 2)"
proof -
  let ?cells = "[markdown_cell ''# Title'', code_cell ''x = 1'', markdown_cell ''then'',
    code_cell ''y = x + 1'']"
  let ?run = "run_fragments Inr (on_namespace py_exec) [''x = 1'', ''y = x + 1''] 2
    (loop_entry demo_loader ''m'' ''m.ipynb'' (demo_world ?cells))"
  have srcs: "map source (filter (\<lambda>c. cell_type c = ''code'') ?cells) = [''x = 1'', ''y = x + 1'']"
    by (simp add: markdown_cell_def code_cell_def)
  have r: "fst ?run = None"
    by code_simp
  have y: "module_attr (snd ?run) 2 ''y'' = Some (PyInt 2)"
    by code_simp
  from load_module_runs_code_cells_in_order
      [of "demo_world ?cells" "''m''" demo_loader "''m.ipynb''" ?cells Inr "on_namespace py_exec"]
    demo_found [of ?cells] demo_parsed [of ?cells]
  have "fst (load_module Inr (on_namespace py_exec) demo_loader ''m'' (demo_world ?cells)) =
      (case fst ?run of Some e \<Rightarrow> Inl e | None \<Rightarrow> Inr 2) \<and>
    snd (load_module Inr (on_namespace py_exec) demo_loader ''m'' (demo_world ?cells)) =
      (snd ?run)\<lparr>user_ns := user_ns (demo_world ?cells)\<rparr>"
    by (simp only: demo_next_id srcs simp_thms)
  with r y show ?thesis by (simp add: module_attr_def)
qed

text \<open>
  C7. Every call of \<open>load_module\<close> that finds and parses the notebook, whether it
  returns or a fragment raises, makes a module object of its own from the file as it is
  at the time of the call. For two such calls for the same name, the second in any state
  in which the identity of the first call's module is taken: the modules differ, and a
  call that returns returns its own; the second call reads the cells the file holds at
  its time and executes them from the start of a loop in which the name is registered
  to the second module, whose dictionary is a new module dictionary, and in which the
  first module's dictionary is as it was; nothing of \<^verbatim>\<open>sys.modules\<close> or of the first
  module enters.
\<close>

theorem load_module_fresh_each_time:
  assumes "find_notebook (os_path_isfile w) fullname (loader_path self) = Some p"
    and "files w p = Some (Notebook cells)"
    and "find_notebook (os_path_isfile w2) fullname (loader_path self') = Some p2"
    and "files w2 p2 = Some (Notebook cells2)"
    and "next_id w < next_id w2"
  shows "next_id w2 \<noteq> next_id w \<and>
    (\<forall>m. fst (load_module transform_cell exec self fullname w) = Inr m \<longrightarrow> m = next_id w) \<and>
    (\<forall>m. fst (load_module transform_cell exec self' fullname w2) = Inr m \<longrightarrow> m = next_id w2) \<and>
    load_module transform_cell exec self' fullname w2 =
      (case exec_cells transform_cell exec cells2 (next_id w2) (loop_entry self' fullname p2 w2) of
         (raised, w') \<Rightarrow>
           ((case raised of Some e \<Rightarrow> Inl e | None \<Rightarrow> Inr (next_id w2)),
            w'\<lparr>user_ns := user_ns w2\<rparr>)) \<and>
    heap (loop_entry self' fullname p2 w2) (next_id w2) = Some (module_dict self' fullname p2) \<and>
    sys_modules (loop_entry self' fullname p2 w2) fullname = Some (next_id w2) \<and>
    heap (loop_entry self' fullname p2 w2) (next_id w) = heap w2 (next_id w)"
proof -
  from assms(5) have distinct: "next_id w2 \<noteq> next_id w" by simp
  have own: "m = next_id w"
    if "fst (load_module transform_cell exec self fullname w) = Inr m" for m
    using that load_module_result(1) [OF assms(1,2), of transform_cell exec]
    by (simp split: option.splits)
  have own2: "m = next_id w2"
    if "fst (load_module transform_cell exec self' fullname w2) = Inr m" for m
    using that load_module_result(1) [OF assms(3,4), of transform_cell exec]
    by (simp split: option.splits)
  note run = load_module_loaded [OF assms(3,4), of transform_cell exec]
  have entry: "heap (loop_entry self' fullname p2 w2) (next_id w2) = Some (module_dict self' fullname p2)"
    "sys_modules (loop_entry self' fullname p2 w2) fullname = Some (next_id w2)"
    "heap (loop_entry self' fullname p2 w2) (next_id w) = heap w2 (next_id w)"
    using distinct by (simp_all add: loop_entry_def)
  from distinct own own2 run entry show ?thesis by blast
qed

text \<open>A first import whose second fragment raises, the notebook edited, and a second
  import: the first makes module 2, the second module 3 from the new text, and module 2
  keeps what the first import gave it.\<close>

theorem load_module_fresh_each_time_witness:
  "fst (load_module Inr (on_namespace py_exec) demo_loader ''m''
     (demo_world [code_cell ''x = 1'', code_cell ''y = z''])) = Inl NameError \<and>
   fst (load_module Inr (on_namespace py_exec) demo_loader ''m''
     (edit_file ''m.ipynb'' (Notebook [code_cell ''x = 2''])
       (snd (load_module Inr (on_namespace py_exec) demo_loader ''m''
          (demo_world [code_cell ''x = 1'', code_cell ''y = z'']))))) = Inr 3 \<and>
   module_attr (snd (load_module Inr (on_namespace py_exec) demo_loader ''m''
     (edit_file ''m.ipynb'' (Notebook [code_cell ''x = 2''])
       (snd (load_module Inr (on_namespace py_exec) demo_loader ''m''
          (demo_world [code_cell ''x = 1'', code_cell ''y = z'']))))))
     3 ''x'' = Some (PyInt 2) \<and>
   module_attr (snd (load_module Inr (on_namespace py_exec) demo_loader ''m''
     (edit_file ''m.ipynb'' (Notebook [code_cell ''x = 2''])
       (snd (load_module Inr (on_namespace py_exec) demo_loader ''m''
          (demo_world [code_cell ''x = 1'', code_cell ''y = z'']))))))
     2 ''x'' = Some (PyInt 1)"
proof -
  let ?cells = "[code_cell ''x = 1'', code_cell ''y = z'']"
  let ?w = "demo_world ?cells"
  let ?w2 = "edit_file ''m.ipynb'' (Notebook [code_cell ''x = 2''])
    (snd (load_module Inr (on_namespace py_exec) demo_loader ''m'' ?w))"
  let ?second = "load_module Inr (on_namespace py_exec) demo_loader ''m'' ?w2"
  have r1: "fst (load_module Inr (on_namespace py_exec) demo_loader ''m'' ?w) = Inl NameError"
    by code_simp
  have found2: "find_notebook (os_path_isfile ?w2) ''m'' (loader_path demo_loader) = Some ''m.ipynb''"
    by code_simp
  have parsed2: "files ?w2 ''m.ipynb'' = Some (Notebook [code_cell ''x = 2''])"
    by (simp add: edit_file_def)
  have later: "next_id ?w < next_id ?w2"
    by code_simp
  have "case fst ?second of Inr m \<Rightarrow> True | Inl e \<Rightarrow> False"
    by code_simp
  then have returns: "\<exists>m. fst ?second = Inr m"
    by (auto split: sum.splits)
  have x2: "module_attr (snd ?second) (next_id ?w2) ''x'' = Some (PyInt 2)"
    by code_simp
  have x1: "module_attr (snd ?second) 2 ''x'' = Some (PyInt 1)"
    by code_simp
  note own = load_module_fresh_each_time
    [OF demo_found [of ?cells] demo_parsed [of ?cells] found2 parsed2 later,
      of Inr "on_namespace py_exec", THEN conjunct2, THEN conjunct2, THEN conjunct1]
  from returns obtain m where m: "fst ?second = Inr m" ..
  have "m = next_id ?w2" by (rule own [rule_format, OF m])
  with m have "fst ?second = Inr (next_id ?w2)" by (simp only:)
  moreover have "next_id ?w2 = 3"
    by code_simp
  ultimately show ?thesis using r1 x1 x2 by simp
qed

section \<open>Properties of the finder\<close>

lemma find_loop_nonempty: "find_loop isfile name ds = Some p \<Longrightarrow> p \<noteq> []"
  by (induction ds) (auto simp: Let_def path_join_def str_replace_def split: if_splits)

lemma find_notebook_nonempty: "find_notebook isfile fullname path \<noteq> Some []"
  using find_loop_nonempty [of isfile "module_base fullname" "search_dirs path" "[]"]
  by (auto simp: find_notebook_def)

lemma find_module_declines:
  "find_notebook (os_path_isfile w) fullname path = None \<Longrightarrow>
   find_module self fullname path w = (Inr None, self, w)"
  by (simp add: find_module_def)

lemma find_module_found:
  assumes "find_notebook (os_path_isfile w) fullname path = Some p"
  shows "find_module self fullname path w =
    (if \<not> hashable (cache_key path) then (Inl TypeError, self, w)
     else case loaders self (cache_key path) of
       None \<Rightarrow>
         (Inr (Some \<lparr>loader_id = next_id w, loader_path = path\<rparr>),
          self\<lparr>loaders := (loaders self)(cache_key path \<mapsto> \<lparr>loader_id = next_id w, loader_path = path\<rparr>)\<rparr>,
          w\<lparr>next_id := Suc (next_id w)\<rparr>)
     | Some l \<Rightarrow> (Inr (Some l), self, w))"
proof -
  from assms find_notebook_nonempty [of "os_path_isfile w" fullname path]
  have "p \<noteq> []" by auto
  with assms show ?thesis
    by (simp add: find_module_def NotebookLoader_def Let_def split: option.splits)
qed

lemma find_module_cases:
  obtains (declined) "find_module self fullname path w = (Inr None, self, w)"
  | (raised) "find_module self fullname path w = (Inl TypeError, self, w)"
  | (cached) l where "loaders self (cache_key path) = Some l"
      "find_module self fullname path w = (Inr (Some l), self, w)"
  | (created) "loaders self (cache_key path) = None"
      "find_module self fullname path w =
         (Inr (Some \<lparr>loader_id = next_id w, loader_path = path\<rparr>),
          self\<lparr>loaders := (loaders self)(cache_key path \<mapsto> \<lparr>loader_id = next_id w, loader_path = path\<rparr>)\<rparr>,
          w\<lparr>next_id := Suc (next_id w)\<rparr>)"
proof (cases "find_notebook (os_path_isfile w) fullname path")
  case None
  then show ?thesis using find_module_declines declined by blast
next
  case (Some p)
  note found = find_module_found [OF Some, of self]
  show ?thesis
  proof (cases "hashable (cache_key path)")
    case False
    with found raised show ?thesis by simp
  next
    case True
    show ?thesis
    proof (cases "loaders self (cache_key path)")
      case None
      with True found created show ?thesis by simp
    next
      case (Some l)
      with True found cached show ?thesis by simp
    qed
  qed
qed

lemma find_module_returns_cached:
  assumes "find_module self fullname path w = (Inr (Some l), self', w')"
  shows "loaders self' (cache_key path) = Some l"
  by (rule find_module_cases [where self = self and fullname = fullname and path = path and w = w]) (use assms in auto)

lemma find_module_keeps:
  assumes "find_module self fullname path w = (r, self', w')"
    and "loaders self k = Some l"
  shows "loaders self' k = Some l"
  by (rule find_module_cases [where self = self and fullname = fullname and path = path and w = w]) (use assms in auto)

lemma find_module_inv:
  assumes "finder_inv self w" and "find_module self fullname path w = (r, self', w')"
  shows "finder_inv self' w'"
proof (cases rule: find_module_cases [where self = self and fullname = fullname and path = path and w = w])
  case declined
  with assms show ?thesis by simp
next
  case raised
  with assms show ?thesis by simp
next
  case (cached l)
  with assms show ?thesis by simp
next
  case created
  let ?new = "\<lparr>loader_id = next_id w, loader_path = path\<rparr>"
  from created assms(2) have
    self': "loaders self' = (loaders self)(cache_key path \<mapsto> ?new)" and
    w': "next_id w' = Suc (next_id w)"
    by auto
  from assms(1) have old: "loader_id l < next_id w" if "loaders self k = Some l" for k l
    using that unfolding finder_inv_def by blast
  from assms(1) have inj: "k = k'"
    if "loaders self k = Some l" "loaders self k' = Some l'" "loader_id l = loader_id l'"
    for k k' l l'
    using that unfolding finder_inv_def by blast
  have bound: "loader_id l < next_id w'" if "loaders self' k = Some l" for k l
    using that old [of k l] by (auto simp: self' w' split: if_splits)
  have inj': "k = k'"
    if "loaders self' k = Some l" "loaders self' k' = Some l'" "loader_id l = loader_id l'"
    for k k' l l'
    using that old [of k l] old [of k' l'] inj [of k l k' l']
    by (auto simp: self' split: if_splits)
  from bound inj' show ?thesis unfolding finder_inv_def by blast
qed

lemma finder_inv_env:
  "finder_inv self w \<Longrightarrow> next_id w \<le> next_id w' \<Longrightarrow> finder_inv self w'"
  unfolding finder_inv_def by (meson less_le_trans)

lemma finder_steps_inv:
  "finder_inv self w \<Longrightarrow> finder_steps es (self, w) = (self', w') \<Longrightarrow> finder_inv self' w'"
proof (induction es arbitrary: self w)
  case Nil
  then show ?case by simp
next
  case (Cons ev es)
  show ?case
  proof (cases ev)
    case (Call fullname path)
    obtain r self1 w1 where step: "find_module self fullname path w = (r, self1, w1)"
      by (cases "find_module self fullname path w") auto
    with Cons.prems(2) Call have "finder_steps es (self1, w1) = (self', w')" by simp
    moreover from Cons.prems(1) step have "finder_inv self1 w1" by (rule find_module_inv)
    ultimately show ?thesis using Cons.IH by blast
  next
    case (Env w1)
    let ?w = "if next_id w \<le> next_id w1 then w1 else w"
    from Cons.prems(2) Env have "finder_steps es (self, ?w) = (self', w')" by simp
    moreover from Cons.prems(1) have "finder_inv self ?w" by (auto intro: finder_inv_env)
    ultimately show ?thesis using Cons.IH by blast
  qed
qed

lemma finder_steps_keeps:
  "finder_steps es (self, w) = (self', w') \<Longrightarrow> loaders self k = Some l \<Longrightarrow>
   loaders self' k = Some l"
proof (induction es arbitrary: self w)
  case Nil
  then show ?case by simp
next
  case (Cons ev es)
  show ?case
  proof (cases ev)
    case (Call fullname path)
    obtain r self1 w1 where step: "find_module self fullname path w = (r, self1, w1)"
      by (cases "find_module self fullname path w") auto
    with Cons.prems(1) Call have "finder_steps es (self1, w1) = (self', w')" by simp
    moreover from step Cons.prems(2) have "loaders self1 k = Some l" by (rule find_module_keeps)
    ultimately show ?thesis using Cons.IH by blast
  next
    case (Env w1)
    with Cons.prems Cons.IH show ?thesis by simp
  qed
qed

lemma finder_inv_new: "finder_inv NotebookFinder w"
  by (simp add: finder_inv_def NotebookFinder_def)

lemma find_notebook_cwd:
  "os_path_isfile w (module_base fullname @ ''.ipynb'') \<or>
   os_path_isfile w (str_replace CHR ''_'' CHR '' '' (module_base fullname @ ''.ipynb'')) \<Longrightarrow>
   \<exists>p. find_notebook (os_path_isfile w) fullname (Some []) = Some p \<and>
       find_notebook (os_path_isfile w) fullname None = Some p \<and> os_path_isfile w p"
  by (auto simp: find_notebook_def search_dirs_def path_join_empty Let_def)

text \<open>
  C10. When a notebook for the name exists in the current directory, \<open>find_notebook\<close>
  with the empty list as search path finds it, as it does with no search path, and
  \<open>find_module\<close> with the empty list raises TypeError: the list itself is the cache
  key. The finder and the process state are as before the call.
\<close>

theorem find_module_empty_list_raises:
  assumes "os_path_isfile w (module_base fullname @ ''.ipynb'') \<or>
    os_path_isfile w (str_replace CHR ''_'' CHR '' '' (module_base fullname @ ''.ipynb''))"
  shows "(\<exists>p. find_notebook (os_path_isfile w) fullname (Some []) = Some p \<and>
            find_notebook (os_path_isfile w) fullname None = Some p \<and> os_path_isfile w p) \<and>
    cache_key (Some []) = KList [] \<and>
    find_module self fullname (Some []) w = (Inl TypeError, self, w)"
proof -
  from find_notebook_cwd [OF assms] obtain p where
    p: "find_notebook (os_path_isfile w) fullname (Some []) = Some p"
      "find_notebook (os_path_isfile w) fullname None = Some p" "os_path_isfile w p"
    by blast
  have key: "cache_key (Some []) = KList []"
    by (simp add: cache_key_def)
  with find_module_found [OF p(1), of self]
  have "find_module self fullname (Some []) w = (Inl TypeError, self, w)"
    by simp
  with p key show ?thesis by blast
qed

text \<open>With \<^verbatim>\<open>m.ipynb\<close> in the current directory, a new finder raises on the empty
  list, and returns a loader when no search path is given.\<close>

theorem find_module_empty_list_raises_witness:
  "find_notebook (os_path_isfile (demo_world [])) ''m'' (Some []) = Some ''m.ipynb'' \<and>
   fst (find_module NotebookFinder ''m'' (Some []) (demo_world [])) = Inl TypeError \<and>
   fst (find_module NotebookFinder ''m'' None (demo_world []))
     = Inr (Some \<lparr>loader_id = 2, loader_path = None\<rparr>)"
proof -
  have base: "module_base ''m'' = ''m''"
    by code_simp
  have there: "os_path_isfile (demo_world []) (module_base ''m'' @ ''.ipynb'')"
    by (simp add: base os_path_isfile_def demo_world_def)
  have found: "find_notebook (os_path_isfile (demo_world [])) ''m'' (Some []) = Some ''m.ipynb''"
    by code_simp
  have none: "fst (find_module NotebookFinder ''m'' None (demo_world []))
     = Inr (Some \<lparr>loader_id = 2, loader_path = None\<rparr>)"
    by code_simp
  from find_module_empty_list_raises [of "demo_world []" "''m''" NotebookFinder] there
  have "find_module NotebookFinder ''m'' (Some []) (demo_world []) =
      (Inl TypeError, NotebookFinder, demo_world [])"
    by blast
  with found none show ?thesis by simp
qed


text \<open>The cache as it is. The key of a search path is the path's directories joined by
  the separator, and the key of an absent search path is \<^verbatim>\<open>None\<close>. For a finder at any
  point of its life since its creation, two calls of \<open>find_module\<close> that return a loader,
  whatever happens to the finder and the process between them, return the same loader
  object exactly when their search paths have the same key.\<close>

lemma find_module_one_loader_per_key:
  assumes "finder_steps es0 (NotebookFinder, w0) = (self, w)"
    and "find_module self fullname1 path1 w = (Inr (Some l1), self1, w1)"
    and "finder_steps es (self1, w1) = (self2, w2)"
    and "find_module self2 fullname2 path2 w2 = (Inr (Some l2), self3, w3)"
  shows "(loader_id l1 = loader_id l2 \<longleftrightarrow> cache_key path1 = cache_key path2) \<and>
    (cache_key path1 = cache_key path2 \<longrightarrow> l1 = l2) \<and>
    (path1 = path2 \<longrightarrow> l1 = l2) \<and>
    cache_key None = KNone \<and>
    (\<forall>ds. path1 = Some ds \<and> ds \<noteq> [] \<longrightarrow> cache_key path1 = KStr (sep_join ds))"
proof -
  from finder_inv_new assms(1) have "finder_inv self w" by (rule finder_steps_inv)
  then have "finder_inv self1 w1" using assms(2) by (rule find_module_inv)
  then have "finder_inv self2 w2" using assms(3) by (rule finder_steps_inv)
  then have "finder_inv self3 w3" using assms(4) by (rule find_module_inv)
  then have inj: "k = k'"
    if "loaders self3 k = Some l" "loaders self3 k' = Some l'" "loader_id l = loader_id l'"
    for k k' l l'
    using that unfolding finder_inv_def by blast
  from assms(2) have "loaders self1 (cache_key path1) = Some l1"
    by (rule find_module_returns_cached)
  with assms(3) have "loaders self2 (cache_key path1) = Some l1"
    by (rule finder_steps_keeps)
  with assms(4) have first: "loaders self3 (cache_key path1) = Some l1"
    by (rule find_module_keeps)
  from assms(4) have second: "loaders self3 (cache_key path2) = Some l2"
    by (rule find_module_returns_cached)
  from first second have same: "l1 = l2" if "cache_key path1 = cache_key path2"
    using that by simp
  from first second inj have key: "cache_key path1 = cache_key path2"
    if "loader_id l1 = loader_id l2"
    using that by blast
  have none: "cache_key None = KNone"
    by (simp add: cache_key_def)
  have joined: "cache_key path1 = KStr (sep_join ds)"
    if "path1 = Some ds \<and> ds \<noteq> []" for ds
    using that by (auto simp: cache_key_def split: list.splits)
  from same key none joined show ?thesis by blast
qed

text \<open>
  C6. The finder does not keep one loader per search path. The search paths
  \<^verbatim>\<open>['a', 'b']\<close> and \<^verbatim>\<open>['a/b']\<close> differ, and both calls locate a notebook
  (\<^verbatim>\<open>a/m.ipynb\<close> and \<^verbatim>\<open>a/b/m.ipynb\<close>), but the joined directories are the same
  string, and the second call returns the loader made for the first, whose search path
  is \<^verbatim>\<open>['a', 'b']\<close>. Importing with that loader reads \<^verbatim>\<open>a/m.ipynb\<close>, where
  \<^verbatim>\<open>x\<close> is 1, not the notebook \<^verbatim>\<open>a/b/m.ipynb\<close> that the second call located.
\<close>

theorem find_module_shares_loader_across_paths:
  "[''a'', ''b''] \<noteq> [''a/b''] \<and>
   find_notebook (os_path_isfile two_dirs_world) ''m'' (Some [''a'', ''b'']) = Some ''a/m.ipynb'' \<and>
   find_notebook (os_path_isfile two_dirs_world) ''m'' (Some [''a/b'']) = Some ''a/b/m.ipynb'' \<and>
   fst (find_module NotebookFinder ''m'' (Some [''a'', ''b'']) two_dirs_world)
     = Inr (Some \<lparr>loader_id = 1, loader_path = Some [''a'', ''b'']\<rparr>) \<and>
   fst (find_module
         (fst (snd (find_module NotebookFinder ''m'' (Some [''a'', ''b'']) two_dirs_world)))
         ''m'' (Some [''a/b''])
         (snd (snd (find_module NotebookFinder ''m'' (Some [''a'', ''b'']) two_dirs_world))))
     = Inr (Some \<lparr>loader_id = 1, loader_path = Some [''a'', ''b'']\<rparr>) \<and>
   next_id (snd (snd (find_module
         (fst (snd (find_module NotebookFinder ''m'' (Some [''a'', ''b'']) two_dirs_world)))
         ''m'' (Some [''a/b''])
         (snd (snd (find_module NotebookFinder ''m'' (Some [''a'', ''b'']) two_dirs_world))))))
     = 2 \<and>
   module_attr (snd (load_module Inr (on_namespace py_exec)
         \<lparr>loader_id = 1, loader_path = Some [''a'', ''b'']\<rparr> ''m''
         (snd (snd (find_module
            (fst (snd (find_module NotebookFinder ''m'' (Some [''a'', ''b'']) two_dirs_world)))
            ''m'' (Some [''a/b''])
            (snd (snd (find_module NotebookFinder ''m'' (Some [''a'', ''b'']) two_dirs_world))))))))
      2 ''__file__'' = Some (PyStr ''a/m.ipynb'') \<and>
   module_attr (snd (load_module Inr (on_namespace py_exec)
         \<lparr>loader_id = 1, loader_path = Some [''a'', ''b'']\<rparr> ''m''
         (snd (snd (find_module
            (fst (snd (find_module NotebookFinder ''m'' (Some [''a'', ''b'']) two_dirs_world)))
            ''m'' (Some [''a/b''])
            (snd (snd (find_module NotebookFinder ''m'' (Some [''a'', ''b'']) two_dirs_world))))))))
      2 ''x'' = Some (PyInt 1)"
  by (intro conjI; code_simp)

end

